theory Spec2Isabelle
  imports Complex_Main "HOL-Library.Sublist"
begin

section \<open>Text and numbers as the Python runtime handles them\<close>

text \<open>
  Strings are lists of 8-bit characters; the model covers ASCII text, which is what the
  instrument list and the upstream price feed use. Python's \<open>float\<close> values are kept as
  the exact decimal value that the text denotes (\<open>Finite\<close>), or one of the three
  non-finite values. Rounding to the nearest binary64 and the sign of zero are not
  modelled; overflow to infinity is.
\<close>

datatype pyfloat = Finite rat | PosInf | NegInf | NaN

definition is_finite :: "pyfloat \<Rightarrow> bool" where
  "is_finite x = (case x of Finite _ \<Rightarrow> True | _ \<Rightarrow> False)"

definition is_digit :: "char \<Rightarrow> bool" where
  "is_digit c = (c \<in> set ''0123456789'')"

definition digit_val :: "char \<Rightarrow> nat" where
  "digit_val c = of_char c - 48"

definition is_space :: "char \<Rightarrow> bool" where
  \<comment> \<open>ASCII white space: blank, tab, line feed, vertical tab, form feed, carriage return,
      and the four separators 0x1C..0x1F.\<close>
  "is_space c = (c \<in> set [CHR '' '', CHR 0x09, CHR 0x0A, CHR 0x0B, CHR 0x0C, CHR 0x0D,
                           CHR 0x1C, CHR 0x1D, CHR 0x1E, CHR 0x1F])"

definition lower_char :: "char \<Rightarrow> char" where
  "lower_char c =
     (case map_of (zip ''ABCDEFGHIJKLMNOPQRSTUVWXYZ'' ''abcdefghijklmnopqrstuvwxyz'') c of
        Some l \<Rightarrow> l
      | None \<Rightarrow> c)"

definition lower_str :: "string \<Rightarrow> string" where
  "lower_str s = map lower_char s"

definition strip :: "string \<Rightarrow> string" where
  "strip s = rev (dropWhile is_space (rev (dropWhile is_space s)))"

definition replace_char :: "char \<Rightarrow> string \<Rightarrow> string" where
  \<comment> \<open>\<open>s.replace(c, "")\<close>: every occurrence of the character is removed.\<close>
  "replace_char c s = filter (\<lambda>x. x \<noteq> c) s"

text \<open>
  The grammar of \<open>float(s)\<close>: surrounding white space is dropped; an optional sign is
  followed by \<open>inf\<close>, \<open>infinity\<close> or \<open>nan\<close> in any letter case, or by a decimal number
  with an optional exponent. A digit part is a run of digits in which single underscores
  may stand between two digits.
\<close>

fun digitpart :: "string \<Rightarrow> bool" where
  "digitpart [] = False"
| "digitpart [c] = is_digit c"
| "digitpart (c # d # r) =
     (is_digit c \<and> (if d = CHR ''_'' then digitpart r else digitpart (d # r)))"

definition digits_val :: "string \<Rightarrow> nat" where
  "digits_val s = foldl (\<lambda>n c. 10 * n + digit_val c) 0 (filter is_digit s)"

definition split_sign :: "string \<Rightarrow> bool \<times> string" where
  \<comment> \<open>an optional leading sign; the flag is True for a minus\<close>
  "split_sign s =
     (case s of
        [] \<Rightarrow> (False, [])
      | c # r \<Rightarrow> if c = CHR ''-'' then (True, r)
                 else if c = CHR ''+'' then (False, r)
                 else (False, s))"

definition parse_number :: "string \<Rightarrow> (nat \<times> nat) option" where
  \<comment> \<open>\<open>[digitpart] "." digitpart | digitpart ["."]\<close>: the digits read as one natural
      number, and how many of them stand after the point\<close>
  "parse_number m =
     (let ip = takeWhile (\<lambda>c. c \<noteq> CHR ''.'') m;
          rest = dropWhile (\<lambda>c. c \<noteq> CHR ''.'') m
      in if rest = [] then (if digitpart ip then Some (digits_val ip, 0) else None)
         else let fp = tl rest
              in if (digitpart fp \<and> (ip = [] \<or> digitpart ip)) \<or> (digitpart ip \<and> fp = [])
                 then Some (digits_val (ip @ fp), length (filter is_digit fp))
                 else None)"

definition parse_exponent :: "string \<Rightarrow> int option" where
  \<comment> \<open>\<open>[sign] digitpart\<close>, the text after the letter e\<close>
  "parse_exponent ex =
     (let (neg, ds) = split_sign ex
      in if digitpart ds
         then Some (if neg then - int (digits_val ds) else int (digits_val ds))
         else None)"

definition scale10 :: "nat \<Rightarrow> int \<Rightarrow> rat" where
  "scale10 m e = (if 0 \<le> e then of_nat m * 10 ^ nat e else of_nat m / 10 ^ nat (- e))"

definition parse_floatnumber :: "string \<Rightarrow> rat option" where
  \<comment> \<open>\<open>number [("e" | "E") [sign] digitpart]\<close>\<close>
  "parse_floatnumber b =
     (let m = takeWhile (\<lambda>c. c \<noteq> CHR ''e'' \<and> c \<noteq> CHR ''E'') b;
          rest = dropWhile (\<lambda>c. c \<noteq> CHR ''e'' \<and> c \<noteq> CHR ''E'') b
      in case parse_number m of
           None \<Rightarrow> None
         | Some (digits, nfrac) \<Rightarrow>
             if rest = [] then Some (scale10 digits (- int nfrac))
             else (case parse_exponent (tl rest) of
                     None \<Rightarrow> None
                   | Some e \<Rightarrow> Some (scale10 digits (e - int nfrac))))"

definition DBL_OVERFLOW :: rat where
  \<comment> \<open>halfway between the largest binary64 and \<open>2 ^ 1024\<close>: from here on the nearest
      binary64 is infinity\<close>
  "DBL_OVERFLOW = 2 ^ 1024 - 2 ^ 970"

definition py_float :: "string \<Rightarrow> pyfloat option" where
  \<comment> \<open>\<open>float(s)\<close>; \<open>None\<close> stands for the ValueError raised on text outside the grammar\<close>
  "py_float s =
     (let (neg, body) = split_sign (strip s)
      in if lower_str body = ''inf'' \<or> lower_str body = ''infinity''
         then Some (if neg then NegInf else PosInf)
         else if lower_str body = ''nan'' then Some NaN
         else (case parse_floatnumber body of
                 None \<Rightarrow> None
               | Some v \<Rightarrow>
                   if DBL_OVERFLOW \<le> v then Some (if neg then NegInf else PosInf)
                   else Some (Finite (if neg then - v else v))))"

section \<open>Upstream responses and the world the program acts on\<close>

text \<open>
  The value that \<open>resp.json()\<close> returns. A dict is an association list whose lookup
  finds the first binding of a key (the keys of a Python dict are distinct).
\<close>

datatype json =
    JNull
  | JBool bool
  | JInt int
  | JFloat pyfloat
  | JStr string
  | JList "json list"
  | JDict "(string \<times> json) list"

text \<open>
  What one call of \<open>requests.get\<close> meets: the call itself raises (no connection, or
  the 5 second timeout), or a response arrives with its status code and its body as
  \<open>resp.json()\<close> reads it (\<open>None\<close> when the body is not JSON).
\<close>

datatype response =
    RequestFailed string
  | Response nat "json option"

datatype exn =
    RequestException string
  | HTTPError nat
  | JSONDecodeError
  | ValueError_invalid_response string
  | ValueError_float string
  | ValueError_sleep
  | AttributeError
  | KeyError string

text \<open>
  The program's effects are kept as a trace: every HTTP request with its URL, every
  \<open>time.sleep\<close> with its length, and every \<open>st.warning\<close> of a failed instrument
  (\<open>"Failed to fetch {label}: {e}"\<close>, kept as the label and the exception). The
  upstream is a function of the number of requests made so far and of the URL, so it
  may answer the same URL differently from one attempt to the next.
\<close>

datatype event = Get string | Sleep int | Warning string exn

type_synonym world = "event list"

type_synonym upstream = "nat \<Rightarrow> string \<Rightarrow> response"

definition is_Get :: "event \<Rightarrow> bool" where
  "is_Get ev = (case ev of Get _ \<Rightarrow> True | _ \<Rightarrow> False)"

definition is_Sleep :: "event \<Rightarrow> bool" where
  "is_Sleep ev = (case ev of Sleep _ \<Rightarrow> True | _ \<Rightarrow> False)"

definition is_Warning :: "event \<Rightarrow> bool" where
  "is_Warning ev = (case ev of Warning _ _ \<Rightarrow> True | _ \<Rightarrow> False)"

definition num_gets :: "world \<Rightarrow> nat" where
  "num_gets w = length (filter is_Get w)"

record Quote =
  label :: string
  price :: pyfloat
  change :: pyfloat
  pct :: pyfloat

record indicator =
  ind_code :: string
  ind_label :: string

section \<open>Constants\<close>

definition API_URL_TEMPLATE :: "string \<Rightarrow> string" where
  "API_URL_TEMPLATE x =
     ''https://priceapi.moneycontrol.com/pricefeed/notapplicable/inidicesindia/'' @ x"

definition INDICATORS :: "indicator list" where
  "INDICATORS =
     [\<lparr>ind_code = ''in;cjn'', ind_label = ''Nifty Commodities''\<rparr>,
      \<lparr>ind_code = ''in;nnx'', ind_label = ''Nifty Energy''\<rparr>,
      \<lparr>ind_code = ''in;cnxt'', ind_label = ''Nifty FMCG''\<rparr>,
      \<lparr>ind_code = ''in;ncx'', ind_label = ''Nifty Healthcare''\<rparr>,
      \<lparr>ind_code = ''in;cnxs'', ind_label = ''Nifty Infrastructure''\<rparr>,
      \<lparr>ind_code = ''in;mfy'', ind_label = ''Nifty IT''\<rparr>,
      \<lparr>ind_code = ''mc;nscapf'', ind_label = ''Nifty Private Banks''\<rparr>,
      \<lparr>ind_code = ''in;IDXN'', ind_label = ''Nifty Public Sector''\<rparr>,
      \<lparr>ind_code = ''in;cnxa'', ind_label = ''Nifty Auto''\<rparr>,
      \<lparr>ind_code = ''in;cnit'', ind_label = ''Nifty IT Services''\<rparr>,
      \<lparr>ind_code = ''in;cuk'', ind_label = ''Nifty Media''\<rparr>,
      \<lparr>ind_code = ''in;cnxf'', ind_label = ''Nifty Financial Services''\<rparr>,
      \<lparr>ind_code = ''in;cpr'', ind_label = ''Nifty Pharma''\<rparr>,
      \<lparr>ind_code = ''in;cfm'', ind_label = ''Nifty Metal''\<rparr>,
      \<lparr>ind_code = ''in;CNXM'', ind_label = ''Nifty Midcap''\<rparr>,
      \<lparr>ind_code = ''in;crl'', ind_label = ''Nifty Realty''\<rparr>,
      \<lparr>ind_code = ''in;cnmx'', ind_label = ''Nifty Smallcap''\<rparr>,
      \<lparr>ind_code = ''in;cgy'', ind_label = ''Nifty Green Energy''\<rparr>,
      \<lparr>ind_code = ''in;nxb'', ind_label = ''Nifty Banks''\<rparr>,
      \<lparr>ind_code = ''in;cfr'', ind_label = ''Nifty Retail''\<rparr>,
      \<lparr>ind_code = ''in;cnxz'', ind_label = ''Nifty Oil & Gas''\<rparr>,
      \<lparr>ind_code = ''in;cnxc'', ind_label = ''Nifty Consumer Durables''\<rparr>,
      \<lparr>ind_code = ''in;cps'', ind_label = ''Nifty PSU Banks''\<rparr>,
      \<lparr>ind_code = ''in;crv'', ind_label = ''Nifty Value 20''\<rparr>,
      \<lparr>ind_code = ''mc;oilgas'', ind_label = ''MC Oil & Gas''\<rparr>,
      \<lparr>ind_code = ''mc;nmidcaps'', ind_label = ''MC Nifty Midcaps''\<rparr>,
      \<lparr>ind_code = ''mc;nm150qlty'', ind_label = ''MC Nifty150 Quality 30''\<rparr>]"

section \<open>Fetch functions\<close>

text \<open>
  \<open>requests.utils.quote\<close> with its default safe set: letters, digits and the
  characters \<open>_ . - ~ /\<close> stay, every other byte becomes \<open>%XX\<close> in upper-case hex.
\<close>

definition hex_digit :: "nat \<Rightarrow> char" where
  "hex_digit n = ''0123456789ABCDEF'' ! (n mod 16)"

definition quote_safe :: "char \<Rightarrow> bool" where
  "quote_safe c =
     (c \<in> set ''ABCDEFGHIJKLMNOPQRSTUVWXYZabcdefghijklmnopqrstuvwxyz0123456789_.-~/'')"

definition quote :: "string \<Rightarrow> string" where
  "quote s =
     concat (map (\<lambda>c. if quote_safe c then [c]
                       else [CHR ''%'', hex_digit (of_char c div 16), hex_digit (of_char c)]) s)"

definition raise_for_status :: "nat \<Rightarrow> exn option" where
  \<comment> \<open>\<open>resp.raise_for_status()\<close> raises for the 4xx and 5xx status codes\<close>
  "raise_for_status st = (if 400 \<le> st \<and> st < 600 then Some (HTTPError st) else None)"

definition py_get :: "json \<Rightarrow> string \<Rightarrow> json \<Rightarrow> exn + json" where
  \<comment> \<open>\<open>data.get(key, default)\<close>; only a dict has the method\<close>
  "py_get data key dflt =
     (case data of
        JDict kvs \<Rightarrow> (case map_of kvs key of None \<Rightarrow> Inr dflt | Some v \<Rightarrow> Inr v)
      | _ \<Rightarrow> Inl AttributeError)"

definition py_replace :: "json \<Rightarrow> char \<Rightarrow> exn + string" where
  \<comment> \<open>\<open>v.replace(c, "")\<close>; only a str has the method\<close>
  "py_replace v c = (case v of JStr s \<Rightarrow> Inr (replace_char c s) | _ \<Rightarrow> Inl AttributeError)"

definition field_float :: "json \<Rightarrow> string \<Rightarrow> char \<Rightarrow> exn + pyfloat" where
  \<comment> \<open>\<open>float(data.get(key, "0").replace(c, ""))\<close>\<close>
  "field_float data key c =
     (case py_get data key (JStr ''0'') of
        Inl e \<Rightarrow> Inl e
      | Inr v \<Rightarrow>
          (case py_replace v c of
             Inl e \<Rightarrow> Inl e
           | Inr s \<Rightarrow> (case py_float s of None \<Rightarrow> Inl (ValueError_float s) | Some x \<Rightarrow> Inr x)))"

definition read_quote :: "string \<Rightarrow> json \<Rightarrow> exn + Quote" where
  \<comment> \<open>lines 95 to 98: the three fields, read in this order\<close>
  "read_quote lbl data =
     (case field_float data ''pricecurrent'' CHR '','' of
        Inl e \<Rightarrow> Inl e
      | Inr p \<Rightarrow>
          (case field_float data ''pricechange'' CHR '','' of
             Inl e \<Rightarrow> Inl e
           | Inr c \<Rightarrow>
               (case field_float data ''pricepercentchange'' CHR ''%'' of
                  Inl e \<Rightarrow> Inl e
                | Inr pc \<Rightarrow> Inr \<lparr>label = lbl, price = p, change = c, pct = pc\<rparr>)))"

definition attempt :: "string \<Rightarrow> response \<Rightarrow> exn + Quote" where
  \<comment> \<open>the body of the \<open>try\<close>, lines 89 to 98, on what the request meets\<close>
  "attempt lbl r =
     (case r of
        RequestFailed msg \<Rightarrow> Inl (RequestException msg)
      | Response st body \<Rightarrow>
          (case raise_for_status st of
             Some e \<Rightarrow> Inl e
           | None \<Rightarrow>
               (case body of
                  None \<Rightarrow> Inl JSONDecodeError
                | Some parsed \<Rightarrow>
                    (case parsed of
                       JDict kvs \<Rightarrow>
                         (case map_of kvs ''data'' of
                            None \<Rightarrow> Inl (ValueError_invalid_response lbl)
                          | Some data \<Rightarrow>
                              if data = JNull then Inl (ValueError_invalid_response lbl)
                              else read_quote lbl data)
                     | _ \<Rightarrow> Inl (ValueError_invalid_response lbl)))))"

definition time_sleep :: "int \<Rightarrow> world \<Rightarrow> exn + world" where
  \<comment> \<open>\<open>time.sleep\<close> rejects a negative length\<close>
  "time_sleep d w = (if d < 0 then Inl ValueError_sleep else Inr (w @ [Sleep d]))"

text \<open>
  The loop \<open>for attempt in range(retries)\<close> of \<open>fetch_indicator\<close>, entered at the
  attempt numbered \<open>n\<close>. The result is the exception that leaves the function, or the
  value returned: \<open>Some\<close> Quote, or \<open>None\<close> when the loop ends without a \<open>return\<close>.
\<close>

function fetch_loop ::
  "upstream \<Rightarrow> string \<Rightarrow> string \<Rightarrow> int \<Rightarrow> int \<Rightarrow> int \<Rightarrow> world \<Rightarrow> (exn + Quote option) \<times> world"
where
  "fetch_loop up url lbl retries delay n w =
     (if n < retries then
        (case attempt lbl (up (num_gets w) url) of
           Inr q \<Rightarrow> (Inr (Some q), w @ [Get url])
         | Inl e \<Rightarrow>
             if n < retries - 1 then
               (case time_sleep delay (w @ [Get url]) of
                  Inl e' \<Rightarrow> (Inl e', w @ [Get url])
                | Inr w' \<Rightarrow> fetch_loop up url lbl retries delay (n + 1) w')
             else (Inl e, w @ [Get url]))
      else (Inr None, w))"
  by pat_completeness auto
termination
  by (relation "measure (\<lambda>(up, url, lbl, retries, delay, n, w). nat (retries - n))") auto

declare fetch_loop.simps [simp del]

definition fetch_indicator ::
  "upstream \<Rightarrow> string \<Rightarrow> string \<Rightarrow> int \<Rightarrow> int \<Rightarrow> world \<Rightarrow> (exn + Quote option) \<times> world"
where
  "fetch_indicator up code lbl retries delay w =
     fetch_loop up (API_URL_TEMPLATE (quote code)) lbl retries delay 0 w"

text \<open>
  \<open>fetch_all_indicators\<close> without its cache decorator, over any list of instruments:
  each is fetched with the default \<open>retries = 3\<close> and \<open>delay = 1\<close>; what
  \<open>fetch_indicator\<close> returns is appended to \<open>records\<close>, what it raises becomes a
  warning and the loop goes on.
\<close>

fun fetch_all_loop ::
  "upstream \<Rightarrow> indicator list \<Rightarrow> Quote option list \<Rightarrow> world \<Rightarrow> Quote option list \<times> world"
where
  "fetch_all_loop up [] records w = (records, w)"
| "fetch_all_loop up (ind # rest) records w =
     (case fetch_indicator up (ind_code ind) (ind_label ind) 3 1 w of
        (Inr r, w') \<Rightarrow> fetch_all_loop up rest (records @ [r]) w'
      | (Inl e, w') \<Rightarrow> fetch_all_loop up rest records (w' @ [Warning (ind_label ind) e]))"

text \<open>
  A data frame is its column names and its rows. \<open>pd.DataFrame(records)\<close> of an empty
  list has no columns at all; of a list of Quote dicts it has the four keys as columns.
  With three attempts \<open>fetch_indicator\<close> never returns \<open>None\<close> (lemma
  \<open>fetch_indicator_default_not_None\<close> below), so the constructor is modelled on lists of dicts
  only and skips a \<open>None\<close> entry.
\<close>

record dataframe =
  columns :: "string list"
  rows :: "Quote list"

definition DataFrame :: "Quote option list \<Rightarrow> dataframe" where
  "DataFrame records =
     \<lparr>columns = (if records = [] then [] else [''label'', ''price'', ''change'', ''pct'']),
      rows = List.map_filter (\<lambda>r. r) records\<rparr>"

definition fetch_all :: "upstream \<Rightarrow> indicator list \<Rightarrow> world \<Rightarrow> dataframe \<times> world" where
  "fetch_all up inds w =
     (case fetch_all_loop up inds [] w of (records, w') \<Rightarrow> (DataFrame records, w'))"

section \<open>The result cache\<close>

text \<open>
  \<open>@st.cache_data(ttl=300)\<close> on a function without arguments keeps one entry: the
  returned value, the time it was stored, and the \<open>st\<close> messages the function emitted,
  which a later hit shows again. An entry is served while its age is below \<open>ttl\<close>;
  otherwise the function runs and its result replaces the entry. The clock is read once
  per call and passed in (\<open>now\<close>, in seconds); the time the batch itself takes is not
  modelled.
\<close>

record cache_entry =
  cached_value :: dataframe
  created_at :: nat
  replayed :: "event list"

definition cache_lookup :: "nat \<Rightarrow> nat \<Rightarrow> cache_entry option \<Rightarrow> cache_entry option" where
  \<comment> \<open>the entry, if there is one and it has not expired\<close>
  "cache_lookup ttl now c =
     (case c of None \<Rightarrow> None | Some e \<Rightarrow> if now < created_at e + ttl then Some e else None)"

definition cache_data ::
  "nat \<Rightarrow> (world \<Rightarrow> dataframe \<times> world) \<Rightarrow> nat \<Rightarrow> cache_entry option \<times> world
     \<Rightarrow> dataframe \<times> cache_entry option \<times> world"
where
  "cache_data ttl f now cw =
     (case cw of (c, w) \<Rightarrow>
        (case cache_lookup ttl now c of
           Some e \<Rightarrow> (cached_value e, c, w @ replayed e)
         | None \<Rightarrow>
             (case f w of (v, w') \<Rightarrow>
                (v, Some \<lparr>cached_value = v, created_at = now,
                          replayed = filter is_Warning (drop (length w) w')\<rparr>, w'))))"

definition fetch_all_indicators ::
  "upstream \<Rightarrow> nat \<Rightarrow> cache_entry option \<times> world \<Rightarrow> dataframe \<times> cache_entry option \<times> world"
where
  "fetch_all_indicators up = cache_data 300 (fetch_all up INDICATORS)"

section \<open>Data filtering and the page\<close>

text \<open>
  \<open>Series.str.contains(pat, case=False)\<close> reads \<open>pat\<close> as a regular expression and
  searches each label for a match, ignoring letter case. The model covers the patterns
  built from ordinary characters and the dot, which matches any character but a line
  feed; a pattern with any other special character is outside the model (\<open>None\<close>).
\<close>

datatype re_atom = Lit char | AnyChar

definition re_special :: "char \<Rightarrow> bool" where
  "re_special c = (c \<in> set (''.^$*+?{}[]|()'' @ [CHR 0x5C]))"

fun re_compile :: "string \<Rightarrow> re_atom list option" where
  "re_compile [] = Some []"
| "re_compile (c # r) =
     (if c = CHR ''.'' then map_option (\<lambda>as. AnyChar # as) (re_compile r)
      else if re_special c then None
      else map_option (\<lambda>as. Lit c # as) (re_compile r))"

fun match_atom :: "re_atom \<Rightarrow> char \<Rightarrow> bool" where
  "match_atom (Lit a) c = (lower_char a = lower_char c)"
| "match_atom AnyChar c = (c \<noteq> CHR 0x0A)"

fun match_here :: "re_atom list \<Rightarrow> string \<Rightarrow> bool" where
  "match_here [] s = True"
| "match_here (a # as) [] = False"
| "match_here (a # as) (c # cs) = (match_atom a c \<and> match_here as cs)"

fun re_search :: "re_atom list \<Rightarrow> string \<Rightarrow> bool" where
  "re_search as [] = match_here as []"
| "re_search as (c # cs) = (match_here as (c # cs) \<or> re_search as cs)"

definition label_isin :: "string list \<Rightarrow> dataframe \<Rightarrow> exn + dataframe" where
  \<comment> \<open>\<open>df[df["label"].isin(selection)]\<close>\<close>
  "label_isin selection df =
     (if ''label'' \<in> set (columns df)
      then Inr (df\<lparr>rows := filter (\<lambda>q. label q \<in> set selection) (rows df)\<rparr>)
      else Inl (KeyError ''label''))"

definition label_contains :: "string \<Rightarrow> dataframe \<Rightarrow> (exn + dataframe) option" where
  \<comment> \<open>\<open>df[df["label"].str.contains(search_query, case=False)]\<close>\<close>
  "label_contains search_query df =
     (if ''label'' \<in> set (columns df)
      then (case re_compile search_query of
              None \<Rightarrow> None
            | Some as \<Rightarrow> Some (Inr (df\<lparr>rows := filter (\<lambda>q. re_search as (label q)) (rows df)\<rparr>)))
      else Some (Inl (KeyError ''label'')))"

definition filter_data :: "string list \<Rightarrow> string \<Rightarrow> dataframe \<Rightarrow> (exn + dataframe) option" where
  \<comment> \<open>lines 163 to 167\<close>
  "filter_data selection search_query df =
     (case (if selection \<noteq> [] then label_isin selection df else Inr df) of
        Inl e \<Rightarrow> Some (Inl e)
      | Inr df1 \<Rightarrow> if search_query \<noteq> [] then label_contains search_query df1 else Some (Inr df1))"

definition df_empty :: "dataframe \<Rightarrow> bool" where
  \<comment> \<open>\<open>df.empty\<close>: an axis of length 0\<close>
  "df_empty df = (rows df = [] \<or> columns df = [])"

text \<open>
  What the page shows below the header: the warning that no data is available, or the
  dashboard drawn from the filtered frame (the charts themselves are presentation and
  are not modelled).
\<close>

datatype page_view = No_data_warning | Dashboard dataframe

definition render :: "string list \<Rightarrow> string \<Rightarrow> dataframe \<Rightarrow> (exn + page_view) option" where
  \<comment> \<open>lines 163 to 171\<close>
  "render selection search_query df =
     (case filter_data selection search_query df of
        None \<Rightarrow> None
      | Some (Inl e) \<Rightarrow> Some (Inl e)
      | Some (Inr df') \<Rightarrow> Some (Inr (if df_empty df' then No_data_warning else Dashboard df')))"

definition main_page ::
  "upstream \<Rightarrow> string list \<Rightarrow> string \<Rightarrow> nat \<Rightarrow> cache_entry option \<times> world
     \<Rightarrow> (exn + page_view) option \<times> cache_entry option \<times> world"
where
  \<comment> \<open>lines 158 to 171: the cached batch, then the filters and the page\<close>
  "main_page up selection search_query now cw =
     (case fetch_all_indicators up now cw of
        (df, c', w') \<Rightarrow> (render selection search_query df, c', w'))"

section \<open>Notions the properties are stated with\<close>

definition attempts_trace :: "string \<Rightarrow> int \<Rightarrow> nat \<Rightarrow> event list" where
  \<comment> \<open>\<open>k\<close> requests each followed by a sleep, then one more request\<close>
  "attempts_trace url delay k = concat (replicate k [Get url, Sleep delay]) @ [Get url]"

definition is_dict :: "json \<Rightarrow> bool" where
  "is_dict j = (case j of JDict _ \<Rightarrow> True | _ \<Rightarrow> False)"

definition lookup :: "json \<Rightarrow> string \<Rightarrow> json option" where
  \<comment> \<open>the value under a key of a dict; nothing for any other value\<close>
  "lookup j key = (case j of JDict kvs \<Rightarrow> map_of kvs key | _ \<Rightarrow> None)"


definition field_reading :: "json \<Rightarrow> string \<Rightarrow> char \<Rightarrow> pyfloat option" where
  \<comment> \<open>what a field of \<open>data\<close> is read as: zero when the key is absent, the \<open>float\<close> of
      its text without the separator when it is a string, nothing otherwise\<close>
  "field_reading data key c =
     (case lookup data key of
        None \<Rightarrow> Some (Finite 0)
      | Some v \<Rightarrow> (case v of JStr s \<Rightarrow> py_float (replace_char c s) | _ \<Rightarrow> None))"

text \<open>
  The outcome of each instrument's fetch, in the order of the list, when the fetches run
  one after the other as the batch runs them; and from these the instruments that gave a
  Quote and those that raised.
\<close>

fun outcomes :: "upstream \<Rightarrow> indicator list \<Rightarrow> world \<Rightarrow> (exn + Quote option) list" where
  "outcomes up [] w = []"
| "outcomes up (ind # rest) w =
     (case fetch_indicator up (ind_code ind) (ind_label ind) 3 1 w of
        (Inr r, w') \<Rightarrow> Inr r # outcomes up rest w'
      | (Inl e, w') \<Rightarrow> Inl e # outcomes up rest (w' @ [Warning (ind_label ind) e]))"

definition successes :: "upstream \<Rightarrow> indicator list \<Rightarrow> world \<Rightarrow> (indicator \<times> Quote) list" where
  "successes up inds w = [(ind, q). (ind, Inr (Some q)) \<leftarrow> zip inds (outcomes up inds w)]"

definition failures :: "upstream \<Rightarrow> indicator list \<Rightarrow> world \<Rightarrow> (indicator \<times> exn) list" where
  "failures up inds w = [(ind, e). (ind, Inl e) \<leftarrow> zip inds (outcomes up inds w)]"


section \<open>Reading numbers\<close>

lemma py_float_zero: "py_float ''0'' = Some (Finite 0)"
  by (simp add: py_float_def strip_def is_space_def split_sign_def
                lower_str_def lower_char_def parse_floatnumber_def parse_number_def
                is_digit_def digits_val_def digit_val_def scale10_def DBL_OVERFLOW_def)

section \<open>The retry loop\<close>

lemma num_gets_retry: "num_gets (w @ [Get url, Sleep d]) = Suc (num_gets w)"
  by (simp add: num_gets_def is_Get_def)

lemma num_gets_retries:
  "num_gets (w @ concat (replicate k [Get url, Sleep d])) = num_gets w + k"
  by (induction k) (simp_all add: num_gets_def is_Get_def)

lemma attempts_trace_gets: "length (filter is_Get (attempts_trace url d k)) = Suc k"
  by (induction k) (simp_all add: attempts_trace_def is_Get_def)

lemma attempts_trace_sleeps: "filter is_Sleep (attempts_trace url d k) = replicate k (Sleep d)"
  by (induction k) (simp_all add: attempts_trace_def is_Sleep_def)

text \<open>
  While attempts remain, a failed attempt leads to one sleep and to the next attempt:
  \<open>k\<close> failures in a row move the loop \<open>k\<close> attempts on.
\<close>

lemma fetch_loop_retry:
  assumes "0 \<le> delay"
    and "n + int k < retries"
    and "\<forall>i<k. isl (attempt lbl (up (num_gets w + i) url))"
  shows "fetch_loop up url lbl retries delay n w =
         fetch_loop up url lbl retries delay (n + int k)
           (w @ concat (replicate k [Get url, Sleep delay]))"
  using assms
proof (induction k arbitrary: n w)
  case 0
  then show ?case by simp
next
  case (Suc k)
  from Suc.prems(3) have first: "isl (attempt lbl (up (num_gets w) url))"
    by (metis add.right_neutral zero_less_Suc)
  then obtain e where e: "attempt lbl (up (num_gets w) url) = Inl e"
    by (cases "attempt lbl (up (num_gets w) url)") auto
  from Suc.prems(2) have more: "n < retries" "n < retries - 1" by simp_all
  have step: "fetch_loop up url lbl retries delay n w =
              fetch_loop up url lbl retries delay (n + 1) (w @ [Get url, Sleep delay])"
    using e more Suc.prems(1)
    by (subst fetch_loop.simps) (simp add: time_sleep_def)
  have rest: "\<forall>i<k. isl (attempt lbl (up (num_gets (w @ [Get url, Sleep delay]) + i) url))"
  proof (intro allI impI)
    fix i
    assume "i < k"
    then have "Suc i < Suc k" by simp
    with Suc.prems(3) have "isl (attempt lbl (up (num_gets w + Suc i) url))" by blast
    then show "isl (attempt lbl (up (num_gets (w @ [Get url, Sleep delay]) + i) url))"
      by (simp add: num_gets_retry)
  qed
  have "fetch_loop up url lbl retries delay (n + 1) (w @ [Get url, Sleep delay]) =
        fetch_loop up url lbl retries delay (n + 1 + int k)
          ((w @ [Get url, Sleep delay]) @ concat (replicate k [Get url, Sleep delay]))"
    using Suc.prems(1,2) rest by (intro Suc.IH) simp_all
  with step show ?case by (simp add: add.assoc)
qed

lemma fetch_loop_last_fails:
  assumes "n = retries - 1" and "attempt lbl (up (num_gets w) url) = Inl e"
  shows "fetch_loop up url lbl retries delay n w = (Inl e, w @ [Get url])"
  using assms by (subst fetch_loop.simps) simp

lemma fetch_loop_succeeds:
  assumes "n < retries" and "attempt lbl (up (num_gets w) url) = Inr q"
  shows "fetch_loop up url lbl retries delay n w = (Inr (Some q), w @ [Get url])"
  using assms by (subst fetch_loop.simps) simp

lemma fetch_loop_exhausted:
  assumes "1 \<le> retries" and "0 \<le> delay"
    and "\<forall>i<nat retries. isl (attempt lbl (up (num_gets w + i) url))"
  shows "fetch_loop up url lbl retries delay 0 w =
         (Inl (projl (attempt lbl (up (num_gets w + (nat retries - 1)) url))),
          w @ attempts_trace url delay (nat retries - 1))"
proof -
  let ?k = "nat retries - 1"
  let ?w = "w @ concat (replicate ?k [Get url, Sleep delay])"
  from assms(1) have k: "0 + int ?k < retries" "0 + int ?k = retries - 1" by simp_all
  from assms(3) have "\<forall>i<?k. isl (attempt lbl (up (num_gets w + i) url))" by simp
  with assms(2) k(1)
  have "fetch_loop up url lbl retries delay 0 w =
        fetch_loop up url lbl retries delay (0 + int ?k) ?w"
    by (rule fetch_loop_retry)
  moreover from assms(1) have "?k < nat retries" by simp
  with assms(3) have "isl (attempt lbl (up (num_gets w + ?k) url))" by blast
  then have "attempt lbl (up (num_gets ?w) url) =
             Inl (projl (attempt lbl (up (num_gets w + ?k) url)))"
    by (simp add: num_gets_retries)
  with k(2) have "fetch_loop up url lbl retries delay (0 + int ?k) ?w =
      (Inl (projl (attempt lbl (up (num_gets w + ?k) url))), ?w @ [Get url])"
    by (rule fetch_loop_last_fails)
  ultimately show ?thesis by (simp add: attempts_trace_def)
qed

lemma fetch_loop_recovers:
  assumes "int k < retries" and "0 \<le> delay"
    and "\<forall>i<k. isl (attempt lbl (up (num_gets w + i) url))"
    and "attempt lbl (up (num_gets w + k) url) = Inr q"
  shows "fetch_loop up url lbl retries delay 0 w =
         (Inr (Some q), w @ attempts_trace url delay k)"
proof -
  let ?w = "w @ concat (replicate k [Get url, Sleep delay])"
  from assms(1) have k: "0 + int k < retries" by simp
  with assms(2,3)
  have "fetch_loop up url lbl retries delay 0 w =
        fetch_loop up url lbl retries delay (0 + int k) ?w"
    by (intro fetch_loop_retry)
  moreover from assms(4) have "attempt lbl (up (num_gets ?w) url) = Inr q"
    by (simp add: num_gets_retries)
  with k have "fetch_loop up url lbl retries delay (0 + int k) ?w = (Inr (Some q), ?w @ [Get url])"
    by (rule fetch_loop_succeeds)
  ultimately show ?thesis by (simp add: attempts_trace_def)
qed

text \<open>
  C10. With \<open>retries \<le> 0\<close> the loop body is never entered: \<open>fetch_indicator\<close> makes no
  request (the trace is unchanged), raises nothing and returns \<open>None\<close>, whatever the
  code, the label, the delay and the upstream.
\<close>

theorem fetch_indicator_no_attempts:
  "retries \<le> 0 \<Longrightarrow> fetch_indicator up code lbl retries delay w = (Inr None, w)"
  by (simp add: fetch_indicator_def fetch_loop.simps)

theorem fetch_indicator_no_attempts_witness:
  "(- 2 :: int) \<le> 0 \<and>
   fetch_indicator (\<lambda>n u. Response 200 None) ''in;mfy'' ''Nifty IT'' (- 2) 1 [] = (Inr None, [])"
proof -
  have h: "(- 2 :: int) \<le> 0" by simp
  from fetch_indicator_no_attempts [OF h] h show ?thesis by blast
qed

text \<open>
  C1. Let \<open>retries \<ge> 1\<close> (and the delay be a duration, that is, not negative). If each
  of the \<open>retries\<close> attempts fails, whatever the cause, then \<open>fetch_indicator\<close> raises
  the exception of the last attempt and returns no Quote; its trace is request, sleep,
  request, ..., request: exactly \<open>retries\<close> requests, with one sleep of \<open>delay\<close> between
  two consecutive requests, \<open>retries - 1\<close> sleeps in all.
\<close>

theorem fetch_indicator_exhausts_retries:
  assumes "1 \<le> retries" and "0 \<le> delay"
    and "\<forall>i<nat retries.
           isl (attempt lbl (up (num_gets w + i) (API_URL_TEMPLATE (quote code))))"
  shows "fetch_indicator up code lbl retries delay w =
           (Inl (projl (attempt lbl
                   (up (num_gets w + (nat retries - 1)) (API_URL_TEMPLATE (quote code))))),
            w @ attempts_trace (API_URL_TEMPLATE (quote code)) delay (nat retries - 1))
         \<and> length (filter is_Get
              (attempts_trace (API_URL_TEMPLATE (quote code)) delay (nat retries - 1)))
             = nat retries
         \<and> filter is_Sleep
              (attempts_trace (API_URL_TEMPLATE (quote code)) delay (nat retries - 1))
             = replicate (nat retries - 1) (Sleep delay)"
proof -
  from assms(1) have "Suc (nat retries - 1) = nat retries" by simp
  with fetch_loop_exhausted
         [where up = up and url = "API_URL_TEMPLATE (quote code)" and lbl = lbl, OF assms]
  show ?thesis
    by (simp add: fetch_indicator_def attempts_trace_gets attempts_trace_sleeps)
qed

theorem fetch_indicator_exhausts_retries_witness:
  "(1::int) \<le> 3 \<and> (0::int) \<le> 1 \<and>
   fetch_indicator (\<lambda>n u. if n = 2 then Response 503 None else RequestFailed ''timeout'')
       ''in;mfy'' ''Nifty IT'' 3 1 [] =
     (Inl (HTTPError 503),
      [Get (API_URL_TEMPLATE (quote ''in;mfy'')), Sleep 1,
       Get (API_URL_TEMPLATE (quote ''in;mfy'')), Sleep 1,
       Get (API_URL_TEMPLATE (quote ''in;mfy''))])"
proof -
  let ?up = "\<lambda>(n::nat) (u::string). if n = 2 then Response 503 None else RequestFailed ''timeout''"
  have h1: "(1::int) \<le> 3" and h2: "(0::int) \<le> 1" by simp_all
  have h3: "\<forall>i<nat 3. isl (attempt ''Nifty IT''
              (?up (num_gets [] + i) (API_URL_TEMPLATE (quote ''in;mfy''))))"
    by (simp add: attempt_def raise_for_status_def)
  from fetch_indicator_exhausts_retries
         [where up = ?up and code = "''in;mfy''" and lbl = "''Nifty IT''" and w = "[]",
          OF h1 h2 h3]
  show ?thesis
    by (simp add: eval_nat_numeral attempts_trace_def num_gets_def attempt_def
                  raise_for_status_def)
qed

text \<open>
  C6. Let \<open>k < retries\<close> (and the delay not be negative). If the first \<open>k\<close> attempts
  fail and attempt \<open>k + 1\<close> gives the Quote \<open>q\<close>, then \<open>fetch_indicator\<close> returns
  \<open>q\<close>; its trace is \<open>k\<close> times request and sleep, then the successful request:
  exactly \<open>k + 1\<close> requests and \<open>k\<close> sleeps of \<open>delay\<close>, one between each two
  consecutive requests.
\<close>

theorem fetch_indicator_succeeds_after_failures:
  assumes "int k < retries" and "0 \<le> delay"
    and "\<forall>i<k. isl (attempt lbl (up (num_gets w + i) (API_URL_TEMPLATE (quote code))))"
    and "attempt lbl (up (num_gets w + k) (API_URL_TEMPLATE (quote code))) = Inr q"
  shows "fetch_indicator up code lbl retries delay w =
           (Inr (Some q), w @ attempts_trace (API_URL_TEMPLATE (quote code)) delay k)
         \<and> length (filter is_Get (attempts_trace (API_URL_TEMPLATE (quote code)) delay k))
             = k + 1
         \<and> filter is_Sleep (attempts_trace (API_URL_TEMPLATE (quote code)) delay k)
             = replicate k (Sleep delay)"
  using fetch_loop_recovers
          [where up = up and url = "API_URL_TEMPLATE (quote code)" and lbl = lbl, OF assms]
  by (simp add: fetch_indicator_def attempts_trace_gets attempts_trace_sleeps)

theorem fetch_indicator_succeeds_after_failures_witness:
  "int 1 < 3 \<and> (0::int) \<le> 1 \<and>
   fetch_indicator
       (\<lambda>n u. if n = 0 then RequestFailed ''timeout''
              else Response 200 (Some (JDict [(''data'', JDict [])])))
       ''in;mfy'' ''Nifty IT'' 3 1 [] =
     (Inr (Some \<lparr>label = ''Nifty IT'', price = Finite 0, change = Finite 0, pct = Finite 0\<rparr>),
      [Get (API_URL_TEMPLATE (quote ''in;mfy'')), Sleep 1,
       Get (API_URL_TEMPLATE (quote ''in;mfy''))])"
proof -
  let ?up = "\<lambda>(n::nat) (u::string). if n = 0 then RequestFailed ''timeout''
                                     else Response 200 (Some (JDict [(''data'', JDict [])]))"
  let ?q = "\<lparr>label = ''Nifty IT'', price = Finite 0, change = Finite 0, pct = Finite 0\<rparr>"
  have h1: "int 1 < 3" and h2: "(0::int) \<le> 1" by simp_all
  have h3: "\<forall>i<1. isl (attempt ''Nifty IT''
              (?up (num_gets [] + i) (API_URL_TEMPLATE (quote ''in;mfy''))))"
    by (simp add: attempt_def num_gets_def)
  have h4: "attempt ''Nifty IT'' (?up (num_gets [] + 1) (API_URL_TEMPLATE (quote ''in;mfy'')))
              = Inr ?q"
    by (simp add: attempt_def raise_for_status_def read_quote_def field_float_def py_get_def
                  py_replace_def replace_char_def py_float_zero num_gets_def)
  from fetch_indicator_succeeds_after_failures
         [where up = ?up and code = "''in;mfy''" and lbl = "''Nifty IT''" and w = "[]",
          OF h1 h2 h3 h4]
  show ?thesis
    by (simp add: attempts_trace_def)
qed


















lemma py_float_nan: "py_float ''nan'' = Some NaN"
  by (simp add: py_float_def strip_def is_space_def split_sign_def lower_str_def lower_char_def)

section \<open>One attempt\<close>

lemma attempt_malformed:
  assumes "raise_for_status st = None"
    and "\<not> is_dict parsed \<or> lookup parsed ''data'' = None \<or> lookup parsed ''data'' = Some JNull"
  shows "attempt lbl (Response st (Some parsed)) = Inl (ValueError_invalid_response lbl)"
  using assms by (cases parsed) (auto simp: attempt_def is_dict_def lookup_def)

lemma attempt_label: "attempt lbl r = Inr q \<Longrightarrow> label q = lbl"
  by (auto simp: attempt_def read_quote_def
           split: response.splits option.splits json.splits if_splits sum.splits)

lemma field_float_reading:
  "c \<noteq> CHR ''0'' \<Longrightarrow>
     field_float data key c = Inr x \<longleftrightarrow> is_dict data \<and> field_reading data key c = Some x"
  by (cases data)
     (auto simp: field_float_def field_reading_def py_get_def py_replace_def lookup_def
                 is_dict_def replace_char_def py_float_zero
           split: option.splits json.splits)

lemma attempt_Inr_D:
  assumes "attempt lbl r = Inr q"
  shows "\<exists>st parsed data. r = Response st (Some parsed) \<and> lookup parsed ''data'' = Some data
           \<and> is_dict data
           \<and> field_reading data ''pricecurrent'' CHR '','' = Some (price q)
           \<and> field_reading data ''pricechange'' CHR '','' = Some (change q)
           \<and> field_reading data ''pricepercentchange'' CHR ''%'' = Some (pct q)
           \<and> label q = lbl"
proof -
  from assms obtain st kvs data where r: "r = Response st (Some (JDict kvs))"
    and d: "map_of kvs ''data'' = Some data" and rq: "read_quote lbl data = Inr q"
    by (auto simp: attempt_def
             split: response.splits option.splits json.splits if_splits)
  from rq obtain p c pc where
    "field_float data ''pricecurrent'' CHR '','' = Inr p"
    "field_float data ''pricechange'' CHR '','' = Inr c"
    "field_float data ''pricepercentchange'' CHR ''%'' = Inr pc"
    "q = \<lparr>label = lbl, price = p, change = c, pct = pc\<rparr>"
    by (auto simp: read_quote_def split: sum.splits)
  then have "is_dict data
      \<and> field_reading data ''pricecurrent'' CHR '','' = Some (price q)
      \<and> field_reading data ''pricechange'' CHR '','' = Some (change q)
      \<and> field_reading data ''pricepercentchange'' CHR ''%'' = Some (pct q)
      \<and> label q = lbl"
    by (simp add: field_float_reading)
  moreover from d have "lookup (JDict kvs) ''data'' = Some data" by (simp add: lookup_def)
  ultimately show ?thesis using r by blast
qed

lemma fetch_loop_Some_D:
  "fetch_loop up url lbl retries delay n w = (Inr (Some q), w')
     \<Longrightarrow> \<exists>i. attempt lbl (up i url) = Inr q"
proof (induction up url lbl retries delay n w rule: fetch_loop.induct)
  case (1 up url lbl retries delay n w)
  show ?case
  proof (cases "attempt lbl (up (num_gets w) url)")
    case (Inr q')
    with "1.prems" have "q' = q"
      by (subst (asm) fetch_loop.simps) (simp split: if_splits)
    with Inr show ?thesis by blast
  next
    case (Inl e)
    with "1.prems" have go: "n < retries" "n < retries - 1" "0 \<le> delay"
      and call: "fetch_loop up url lbl retries delay (n + 1) (w @ [Get url] @ [Sleep delay])
                   = (Inr (Some q), w')"
      by (subst (asm) fetch_loop.simps, simp add: time_sleep_def split: if_splits)+
    from go(3) have "time_sleep delay (w @ [Get url]) = Inr (w @ [Get url] @ [Sleep delay])"
      by (simp add: time_sleep_def)
    from "1.IH" [OF go(1) Inl go(2) this call] show ?thesis .
  qed
qed

text \<open>
  C5. A response with a successful status whose body is not a dict, has no \<open>data\<close>
  key, or has a null \<open>data\<close>, makes the attempt fail with the ValueError "Invalid JSON
  response for {label}". It is retried like any other failure: against an upstream that
  always answers \<open>{"data": null}\<close>, \<open>fetch_indicator\<close> with \<open>retries \<ge> 1\<close> makes
  \<open>retries\<close> requests and raises that error.
\<close>

theorem malformed_response_raises:
  assumes "raise_for_status st = None"
  shows "(\<not> is_dict parsed \<or> lookup parsed ''data'' = None \<or> lookup parsed ''data'' = Some JNull
            \<longrightarrow> attempt lbl (Response st (Some parsed)) = Inl (ValueError_invalid_response lbl))
       \<and> (1 \<le> retries \<and> 0 \<le> delay \<longrightarrow>
            fetch_indicator (\<lambda>n u. Response st (Some (JDict [(''data'', JNull)])))
                code lbl retries delay w =
              (Inl (ValueError_invalid_response lbl),
               w @ attempts_trace (API_URL_TEMPLATE (quote code)) delay (nat retries - 1))
            \<and> length (filter is_Get
                 (attempts_trace (API_URL_TEMPLATE (quote code)) delay (nat retries - 1)))
                = nat retries)"
proof (intro conjI impI)
  assume "\<not> is_dict parsed \<or> lookup parsed ''data'' = None \<or> lookup parsed ''data'' = Some JNull"
  with assms show "attempt lbl (Response st (Some parsed)) = Inl (ValueError_invalid_response lbl)"
    by (rule attempt_malformed)
next
  let ?null = "JDict [(''data'', JNull)]"
  let ?up = "\<lambda>(n::nat) (u::string). Response st (Some ?null)"
  let ?url = "API_URL_TEMPLATE (quote code)"
  assume r: "1 \<le> retries \<and> 0 \<le> delay"
  have bad: "attempt lbl (Response st (Some ?null)) = Inl (ValueError_invalid_response lbl)"
    using assms by (intro attempt_malformed) (simp_all add: lookup_def)
  then have "\<forall>i<nat retries. isl (attempt lbl (?up (num_gets w + i) ?url))" by simp
  with r have "fetch_loop ?up ?url lbl retries delay 0 w =
      (Inl (projl (attempt lbl (?up (num_gets w + (nat retries - 1)) ?url))),
       w @ attempts_trace ?url delay (nat retries - 1))"
    by (intro fetch_loop_exhausted) simp_all
  with bad show "fetch_indicator ?up code lbl retries delay w =
      (Inl (ValueError_invalid_response lbl), w @ attempts_trace ?url delay (nat retries - 1))"
    by (simp add: fetch_indicator_def)
  from r have "Suc (nat retries - 1) = nat retries" by simp
  then show "length (filter is_Get (attempts_trace ?url delay (nat retries - 1))) = nat retries"
    by (simp add: attempts_trace_gets)
qed

theorem malformed_response_raises_witness:
  "raise_for_status 200 = None
   \<and> lookup (JDict [(''data'', JNull)]) ''data'' = Some JNull
   \<and> attempt ''Nifty IT'' (Response 200 (Some (JDict [(''data'', JNull)])))
       = Inl (ValueError_invalid_response ''Nifty IT'')
   \<and> fetch_indicator (\<lambda>n u. Response 200 (Some (JDict [(''data'', JNull)])))
         ''in;mfy'' ''Nifty IT'' 3 1 [] =
       (Inl (ValueError_invalid_response ''Nifty IT''),
        [Get (API_URL_TEMPLATE (quote ''in;mfy'')), Sleep 1,
         Get (API_URL_TEMPLATE (quote ''in;mfy'')), Sleep 1,
         Get (API_URL_TEMPLATE (quote ''in;mfy''))])"
proof -
  have h: "raise_for_status 200 = None" by (simp add: raise_for_status_def)
  have l: "lookup (JDict [(''data'', JNull)]) ''data'' = Some JNull" by (simp add: lookup_def)
  from malformed_response_raises
         [OF h, where parsed = "JDict [(''data'', JNull)]" and lbl = "''Nifty IT''"
            and retries = 3 and delay = 1 and code = "''in;mfy''" and w = "[]"]
       h l
  show ?thesis by (simp add: eval_nat_numeral attempts_trace_def)
qed



text \<open>
  C2 as stated fails. A \<open>data\<close> object without the \<open>pricecurrent\<close> key is no failure:
  the first attempt returns a Quote whose price is 0. And a field need not be finite:
  the text \<open>nan\<close> is a number for \<open>float\<close>.
\<close>

theorem missing_field_counterexample:
  "lookup (JDict [(''pricechange'', JStr ''nan'')]) ''pricecurrent'' = None
   \<and> fetch_indicator
       (\<lambda>n u. Response 200 (Some (JDict [(''data'', JDict [(''pricechange'', JStr ''nan'')])])))
       ''in;mfy'' ''Nifty IT'' 3 1 [] =
     (Inr (Some \<lparr>label = ''Nifty IT'', price = Finite 0, change = NaN, pct = Finite 0\<rparr>),
      [Get (API_URL_TEMPLATE (quote ''in;mfy''))])
   \<and> \<not> is_finite NaN"
  by (simp add: lookup_def is_finite_def fetch_indicator_def fetch_loop.simps num_gets_def
                attempt_def raise_for_status_def read_quote_def field_float_def py_get_def
                py_replace_def replace_char_def py_float_zero py_float_nan)

text \<open>
  C2 as amended. Every Quote that \<open>fetch_indicator\<close> returns was read from the \<open>data\<close>
  object of one of the upstream's responses: its price, change and percent change are
  the readings of the three fields, where a string is read by \<open>float\<close> after its commas
  (for the percent change: its percent signs) are removed, and a field that is missing
  reads as 0 instead of failing the attempt.
\<close>

theorem quote_fields_are_readings:
  assumes "fetch_indicator up code lbl retries delay w = (Inr (Some q), w')"
  shows "\<exists>n st parsed data.
           up n (API_URL_TEMPLATE (quote code)) = Response st (Some parsed)
           \<and> lookup parsed ''data'' = Some data \<and> is_dict data
           \<and> field_reading data ''pricecurrent'' CHR '','' = Some (price q)
           \<and> field_reading data ''pricechange'' CHR '','' = Some (change q)
           \<and> field_reading data ''pricepercentchange'' CHR ''%'' = Some (pct q)
           \<and> label q = lbl"
proof -
  from assms obtain i where "attempt lbl (up i (API_URL_TEMPLATE (quote code))) = Inr q"
    unfolding fetch_indicator_def by (blast dest: fetch_loop_Some_D)
  from attempt_Inr_D [OF this] show ?thesis by blast
qed

theorem quote_fields_are_readings_witness:
  "\<exists>n st parsed data.
      (\<lambda>(n::nat) (u::string).
          Response 200 (Some (JDict [(''data'', JDict [(''pricechange'', JStr ''nan'')])])))
        n (API_URL_TEMPLATE (quote ''in;mfy'')) = Response st (Some parsed)
      \<and> lookup parsed ''data'' = Some data \<and> is_dict data
      \<and> field_reading data ''pricecurrent'' CHR '','' = Some (Finite 0)
      \<and> field_reading data ''pricechange'' CHR '','' = Some NaN
      \<and> field_reading data ''pricepercentchange'' CHR ''%'' = Some (Finite 0)"
proof -
  let ?up = "\<lambda>(n::nat) (u::string).
          Response 200 (Some (JDict [(''data'', JDict [(''pricechange'', JStr ''nan'')])]))"
  let ?q = "\<lparr>label = ''Nifty IT'', price = Finite 0, change = NaN, pct = Finite 0\<rparr>"
  have run: "fetch_indicator ?up ''in;mfy'' ''Nifty IT'' 3 1 [] =
               (Inr (Some ?q), [Get (API_URL_TEMPLATE (quote ''in;mfy''))])"
    by (simp add: fetch_indicator_def fetch_loop.simps num_gets_def
                attempt_def raise_for_status_def read_quote_def field_float_def py_get_def
                py_replace_def replace_char_def py_float_zero py_float_nan)
  from quote_fields_are_readings [OF run] show ?thesis by simp
qed

section \<open>The batch\<close>

lemma is_Warning_simps:
  "\<not> is_Warning (Get u)" "\<not> is_Warning (Sleep d)" "is_Warning (Warning l e)"
  by (simp_all add: is_Warning_def)

lemma fetch_loop_warnings:
  "filter is_Warning (snd (fetch_loop up url lbl retries delay n w)) = filter is_Warning w"
proof (induction up url lbl retries delay n w rule: fetch_loop.induct)
  case (1 up url lbl retries delay n w)
  show ?case
  proof (cases "n < retries")
    case False
    then show ?thesis by (subst fetch_loop.simps) simp
  next
    case True
    show ?thesis
    proof (cases "attempt lbl (up (num_gets w) url)")
      case (Inr q)
      with True show ?thesis by (subst fetch_loop.simps) (simp add: is_Warning_simps)
    next
      case (Inl e)
      show ?thesis
      proof (cases "n < retries - 1 \<and> 0 \<le> delay")
        case False
        with True Inl show ?thesis
          by (subst fetch_loop.simps) (auto simp: is_Warning_simps time_sleep_def)
      next
        case go: True
        then have s: "time_sleep delay (w @ [Get url]) = Inr (w @ [Get url] @ [Sleep delay])"
          by (simp add: time_sleep_def)
        from go have "n < retries - 1" by simp
        from "1.IH" [OF True Inl this s]
        have "filter is_Warning
                (snd (fetch_loop up url lbl retries delay (n + 1) (w @ [Get url] @ [Sleep delay])))
              = filter is_Warning w"
          by (simp add: is_Warning_simps)
        with True Inl go show ?thesis
          by (subst fetch_loop.simps) (simp add: time_sleep_def)
      qed
    qed
  qed
qed

lemma fetch_loop_not_None:
  "n < retries \<Longrightarrow> fst (fetch_loop up url lbl retries delay n w) \<noteq> Inr None"
proof (induction up url lbl retries delay n w rule: fetch_loop.induct)
  case (1 up url lbl retries delay n w)
  show ?case
  proof (cases "attempt lbl (up (num_gets w) url)")
    case (Inr q)
    with "1.prems" show ?thesis by (subst fetch_loop.simps) simp
  next
    case (Inl e)
    show ?thesis
    proof (cases "n < retries - 1 \<and> 0 \<le> delay")
      case False
      with "1.prems" Inl show ?thesis
        by (subst fetch_loop.simps) (auto simp: time_sleep_def)
    next
      case go: True
      then have s: "time_sleep delay (w @ [Get url]) = Inr (w @ [Get url] @ [Sleep delay])"
        by (simp add: time_sleep_def)
      from go have less: "n < retries - 1" by simp
      then have "n + 1 < retries" by simp
      with "1.IH" [OF "1.prems" Inl less s]
      have "fst (fetch_loop up url lbl retries delay (n + 1) (w @ [Get url] @ [Sleep delay]))
              \<noteq> Inr None" by simp
      with "1.prems" Inl go show ?thesis
        by (subst fetch_loop.simps) (simp add: time_sleep_def)
    qed
  qed
qed

lemma fetch_indicator_warnings:
  "filter is_Warning (snd (fetch_indicator up code lbl retries delay w)) = filter is_Warning w"
  by (simp add: fetch_indicator_def fetch_loop_warnings)

lemma fetch_indicator_default_not_None:
  "fst (fetch_indicator up code lbl 3 1 w) \<noteq> Inr None"
  by (simp add: fetch_indicator_def fetch_loop_not_None)

lemma fetch_indicator_label:
  assumes "fst (fetch_indicator up code lbl retries delay w) = Inr (Some q)"
  shows "label q = lbl"
proof -
  from assms obtain w' where "fetch_indicator up code lbl retries delay w = (Inr (Some q), w')"
    by (cases "fetch_indicator up code lbl retries delay w") simp
  then obtain i where "attempt lbl (up i (API_URL_TEMPLATE (quote code))) = Inr q"
    unfolding fetch_indicator_def by (blast dest: fetch_loop_Some_D)
  then show ?thesis by (rule attempt_label)
qed

lemma length_outcomes: "length (outcomes up inds w) = length inds"
  by (induction inds arbitrary: w) (auto split: prod.splits sum.splits)

lemma outcomes_not_None: "Inr None \<notin> set (outcomes up inds w)"
proof (induction inds arbitrary: w)
  case Nil
  show ?case by simp
next
  case (Cons ind rest)
  show ?case
  proof (cases "fetch_indicator up (ind_code ind) (ind_label ind) 3 1 w")
    case (Pair r w')
    have "fst (fetch_indicator up (ind_code ind) (ind_label ind) 3 1 w) \<noteq> Inr None"
      by (rule fetch_indicator_default_not_None)
    with Pair have "r \<noteq> Inr None" by simp
    with Pair Cons show ?thesis by (cases r) auto
  qed
qed

lemma outcomes_label:
  "(ind, Inr (Some q)) \<in> set (zip inds (outcomes up inds w)) \<Longrightarrow> label q = ind_label ind"
proof (induction inds arbitrary: w)
  case Nil
  then show ?case by simp
next
  case (Cons i rest)
  show ?case
  proof (cases "fetch_indicator up (ind_code i) (ind_label i) 3 1 w")
    case (Pair r w')
    show ?thesis
    proof (cases r)
      case (Inl e)
      with Pair Cons.prems
      have "(ind, Inr (Some q))
              \<in> set (zip rest (outcomes up rest (w' @ [Warning (ind_label i) e])))"
        by simp
      then show ?thesis by (rule Cons.IH)
    next
      case (Inr v)
      with Pair Cons.prems
      have "(ind = i \<and> v = Some q) \<or> (ind, Inr (Some q)) \<in> set (zip rest (outcomes up rest w'))"
        by auto
      then show ?thesis
      proof
        assume "ind = i \<and> v = Some q"
        with Pair Inr have "fst (fetch_indicator up (ind_code ind) (ind_label ind) 3 1 w)
                              = Inr (Some q)" by simp
        then show ?thesis by (rule fetch_indicator_label)
      next
        assume "(ind, Inr (Some q)) \<in> set (zip rest (outcomes up rest w'))"
        then show ?thesis by (rule Cons.IH)
      qed
    qed
  qed
qed

lemma fetch_all_loop_records:
  "fst (fetch_all_loop up inds records w) = records @ [r. Inr r \<leftarrow> outcomes up inds w]"
  by (induction inds arbitrary: records w) (auto split: prod.splits sum.splits)

lemma fetch_all_loop_warnings:
  "filter is_Warning (snd (fetch_all_loop up inds records w)) =
     filter is_Warning w
       @ [Warning (ind_label ind) e. (ind, Inl e) \<leftarrow> zip inds (outcomes up inds w)]"
proof (induction inds arbitrary: records w)
  case Nil
  show ?case by simp
next
  case (Cons i rest)
  show ?case
  proof (cases "fetch_indicator up (ind_code i) (ind_label i) 3 1 w")
    case (Pair r w')
    have keep: "filter is_Warning w' = filter is_Warning w"
      using fetch_indicator_warnings [of up "ind_code i" "ind_label i" 3 1 w] Pair by simp
    show ?thesis
    proof (cases r)
      case (Inl e)
      with Pair keep Cons.IH [of records "w' @ [Warning (ind_label i) e]"]
      show ?thesis by (simp add: is_Warning_simps)
    next
      case (Inr v)
      with Pair keep Cons.IH [of "records @ [v]" w'] show ?thesis by simp
    qed
  qed
qed

lemma successes_rows:
  "length xs = length ys \<Longrightarrow>
     map snd [(a, q). (a, Inr (Some q)) \<leftarrow> zip xs ys] =
     List.map_filter (\<lambda>r. r) [r. Inr r \<leftarrow> (ys :: (exn + Quote option) list)]"
  by (induction xs ys rule: list_induct2)
     (auto simp: List.map_filter_simps split: sum.splits option.splits)

lemma successes_subseq:
  "length xs = length ys \<Longrightarrow>
     subseq (map fst [(a, q). (a, Inr (Some q)) \<leftarrow> zip xs (ys :: (exn + Quote option) list)]) xs"
  by (induction xs ys rule: list_induct2) (auto split: sum.splits option.splits)

lemma successes_failures_length:
  "length xs = length ys \<Longrightarrow> Inr None \<notin> set ys \<Longrightarrow>
     length [(a, q). (a, Inr (Some q)) \<leftarrow> zip xs (ys :: (exn + Quote option) list)]
       + length [(a, e). (a, Inl e) \<leftarrow> zip xs ys] = length xs"
  by (induction xs ys rule: list_induct2) (auto split: sum.splits option.splits)

lemma failures_warnings:
  "[Warning (ind_label ind) e. (ind, Inl e) \<leftarrow> zs] =
     map (\<lambda>(ind, e). Warning (ind_label ind) e)
       [(ind, e). (ind, Inl e) \<leftarrow> (zs :: (indicator \<times> (exn + Quote option)) list)]"
  by (induction zs) (auto split: sum.splits)

text \<open>
  An example: three instruments, the second of which is unreachable. Its three attempts
  and two sleeps are followed by one warning, and the batch goes on to the third.
\<close>

lemma fetch_all_example:
  "fetch_all
     (\<lambda>n u. if u = API_URL_TEMPLATE (quote ''in;nnx'') then RequestFailed ''timeout''
            else Response 200 (Some (JDict [(''data'', JDict [])])))
     [\<lparr>ind_code = ''in;cjn'', ind_label = ''Nifty Commodities''\<rparr>,
      \<lparr>ind_code = ''in;nnx'', ind_label = ''Nifty Energy''\<rparr>,
      \<lparr>ind_code = ''in;cnxt'', ind_label = ''Nifty FMCG''\<rparr>] [] =
   (\<lparr>columns = [''label'', ''price'', ''change'', ''pct''],
     rows = [\<lparr>label = ''Nifty Commodities'', price = Finite 0, change = Finite 0, pct = Finite 0\<rparr>,
             \<lparr>label = ''Nifty FMCG'', price = Finite 0, change = Finite 0, pct = Finite 0\<rparr>]\<rparr>,
    [Get (API_URL_TEMPLATE (quote ''in;cjn'')),
     Get (API_URL_TEMPLATE (quote ''in;nnx'')), Sleep 1,
     Get (API_URL_TEMPLATE (quote ''in;nnx'')), Sleep 1,
     Get (API_URL_TEMPLATE (quote ''in;nnx'')),
     Warning ''Nifty Energy'' (RequestException ''timeout''),
     Get (API_URL_TEMPLATE (quote ''in;cnxt''))])"
proof -
  have q: "quote ''in;cjn'' = ''in%3Bcjn''" "quote ''in;nnx'' = ''in%3Bnnx''"
          "quote ''in;cnxt'' = ''in%3Bcnxt''"
    by (simp_all add: quote_def quote_safe_def hex_digit_def)
  show ?thesis
    by (simp add: q fetch_all_def fetch_indicator_def fetch_loop.simps DataFrame_def
                  List.map_filter_simps API_URL_TEMPLATE_def time_sleep_def
                  attempt_def raise_for_status_def read_quote_def
                  field_float_def py_get_def py_replace_def replace_char_def py_float_zero)
qed

text \<open>
  C3. For any list of instruments, run the batch and let the successes be the
  instruments whose fetch gave a Quote and the failures those whose fetch raised after
  its retries (\<open>N = length inds\<close>, \<open>M = length (failures up inds w)\<close>). The batch always
  returns a frame; every instrument has an outcome (no failure ends the loop); the rows
  are the Quotes of the successes, in the order of the list and under the labels of
  their instruments, \<open>N - M\<close> rows in all; and the warnings emitted are exactly one per
  failure, in order, each with the instrument's label and the exception raised.
\<close>

theorem fetch_all_partial_failure:
  "rows (fst (fetch_all up inds w)) = map snd (successes up inds w)
   \<and> map label (rows (fst (fetch_all up inds w))) = map ind_label (map fst (successes up inds w))
   \<and> subseq (map fst (successes up inds w)) inds
   \<and> length (rows (fst (fetch_all up inds w))) = length inds - length (failures up inds w)
   \<and> filter is_Warning (snd (fetch_all up inds w)) =
       filter is_Warning w @ map (\<lambda>(ind, e). Warning (ind_label ind) e) (failures up inds w)
   \<and> length (outcomes up inds w) = length inds"
proof -
  let ?outs = "outcomes up inds w"
  have len: "length inds = length ?outs" by (simp add: length_outcomes)
  obtain records w' where run: "fetch_all_loop up inds [] w = (records, w')"
    by (cases "fetch_all_loop up inds [] w")
  then have recs: "records = [r. Inr r \<leftarrow> ?outs]"
    using fetch_all_loop_records [of up inds "[]" w] by simp
  from run have w': "filter is_Warning w' =
      filter is_Warning w @ [Warning (ind_label ind) e. (ind, Inl e) \<leftarrow> zip inds ?outs]"
    using fetch_all_loop_warnings [of up inds "[]" w] by simp
  have rows: "rows (fst (fetch_all up inds w)) = map snd (successes up inds w)"
    using run recs successes_rows [OF len]
    by (simp add: fetch_all_def DataFrame_def successes_def)
  have "\<forall>(ind, q) \<in> set (successes up inds w). label q = ind_label ind"
    by (auto simp: successes_def split: sum.splits option.splits dest: outcomes_label)
  then have labels: "map label (map snd (successes up inds w))
                       = map ind_label (map fst (successes up inds w))"
    by (induction "successes up inds w") auto
  have order: "subseq (map fst (successes up inds w)) inds"
    using successes_subseq [OF len] by (simp add: successes_def)
  have "length (successes up inds w) + length (failures up inds w) = length inds"
    using successes_failures_length [OF len outcomes_not_None]
    by (simp add: successes_def failures_def)
  with rows have count: "length (rows (fst (fetch_all up inds w)))
                           = length inds - length (failures up inds w)"
    by simp
  have warn: "filter is_Warning (snd (fetch_all up inds w)) =
       filter is_Warning w @ map (\<lambda>(ind, e). Warning (ind_label ind) e) (failures up inds w)"
    using run w' failures_warnings [of "zip inds ?outs"]
    by (simp add: fetch_all_def failures_def)
  from rows labels order count warn len show ?thesis by simp
qed

section \<open>The cache\<close>

lemma cache_data_miss:
  assumes "cache_lookup ttl now c = None" and "f w = (v, w')"
  shows "cache_data ttl f now (c, w) =
           (v, Some \<lparr>cached_value = v, created_at = now,
                     replayed = filter is_Warning (drop (length w) w')\<rparr>, w')"
  using assms by (simp add: cache_data_def)

lemma cache_data_hit:
  assumes "cache_lookup ttl now c = Some e"
  shows "cache_data ttl f now (c, w) = (cached_value e, c, w @ replayed e)"
  using assms by (simp add: cache_data_def)

lemma is_Get_Warning: "is_Warning ev \<Longrightarrow> \<not> is_Get ev"
  by (cases ev) (simp_all add: is_Warning_def is_Get_def)

lemma num_gets_replayed: "num_gets (w @ filter is_Warning v) = num_gets w"
proof -
  have "filter is_Get (filter is_Warning v) = []"
    by (induction v) (auto dest: is_Get_Warning)
  then show ?thesis by (simp add: num_gets_def)
qed

text \<open>
  C7. Take a first call at time \<open>t1\<close> that finds no usable entry (the cache is empty or
  its entry has expired), a second call less than \<open>ttl\<close> later, and a third call made
  when the entry of the first is older than \<open>ttl\<close>. The first call runs the batch once
  and stores its result. The second returns the stored frame, leaves the entry as it is
  and makes no request: it adds to the trace only the warnings recorded with the entry.
  The third runs the batch once more and replaces the entry by the new frame, stamped
  \<open>t3\<close>. The cache of \<open>fetch_all_indicators\<close> is this one with \<open>ttl = 300\<close>.
\<close>

theorem cache_data_ttl:
  assumes "cache_lookup ttl t1 c0 = None"
    and "t1 \<le> t2" and "t2 - t1 < ttl" and "ttl < t3 - t1"
    and "cache_data ttl f t1 (c0, w0) = (v1, c1, w1)"
    and "cache_data ttl f t2 (c1, w1) = (v2, c2, w2)"
    and "cache_data ttl f t3 (c2, w2) = (v3, c3, w3)"
  shows "f w0 = (v1, w1)
       \<and> v2 = v1 \<and> c2 = c1 \<and> num_gets w2 = num_gets w1
       \<and> w2 = w1 @ filter is_Warning (drop (length w0) w1)
       \<and> f w2 = (v3, w3)
       \<and> c3 = Some \<lparr>cached_value = v3, created_at = t3,
                     replayed = filter is_Warning (drop (length w2) w3)\<rparr>
       \<and> fetch_all_indicators up = cache_data 300 (fetch_all up INDICATORS)"
proof -
  let ?e = "\<lparr>cached_value = v1, created_at = t1,
             replayed = filter is_Warning (drop (length w0) w1)\<rparr>"
  obtain v w' where f0: "f w0 = (v, w')" by (cases "f w0")
  from cache_data_miss [where f = f, OF assms(1) f0] assms(5)
  have first: "v = v1" "w' = w1" "c1 = Some ?e" by auto
  from assms(2,3) have "cache_lookup ttl t2 (Some ?e) = Some ?e"
    by (simp add: cache_lookup_def)
  with first have "cache_data ttl f t2 (c1, w1) = (cached_value ?e, c1, w1 @ replayed ?e)"
    by (intro cache_data_hit) simp
  with assms(6) have second: "v2 = v1" "c2 = c1" "w2 = w1 @ filter is_Warning (drop (length w0) w1)"
    by auto
  from assms(4) have "cache_lookup ttl t3 (Some ?e) = None"
    by (simp add: cache_lookup_def)
  with first second have stale: "cache_lookup ttl t3 c2 = None" by simp
  obtain v' w'' where f2: "f w2 = (v', w'')" by (cases "f w2")
  from cache_data_miss [where f = f, OF stale f2] assms(7)
  have third: "v' = v3" "w'' = w3"
    "c3 = Some \<lparr>cached_value = v3, created_at = t3,
                replayed = filter is_Warning (drop (length w2) w3)\<rparr>"
    by auto
  from second(3) have "num_gets w2 = num_gets w1" by (simp add: num_gets_replayed)
  with f0 first second f2 third show ?thesis
    by (simp add: fetch_all_indicators_def)
qed

theorem cache_data_ttl_witness:
  "cache_lookup 300 0 None = None \<and> (0::nat) \<le> 299 \<and> (299::nat) - 0 < 300
   \<and> (300::nat) < 301 - 0
   \<and> num_gets [Get (API_URL_TEMPLATE (quote ''in;mfy''))] = 1
   \<and> fetch_all (\<lambda>n u. Response 200 (Some (JDict [(''data'', JDict [])])))
        [\<lparr>ind_code = ''in;mfy'', ind_label = ''Nifty IT''\<rparr>]
        [Get (API_URL_TEMPLATE (quote ''in;mfy''))] =
      (\<lparr>columns = [''label'', ''price'', ''change'', ''pct''],
        rows = [\<lparr>label = ''Nifty IT'', price = Finite 0, change = Finite 0, pct = Finite 0\<rparr>]\<rparr>,
       [Get (API_URL_TEMPLATE (quote ''in;mfy'')), Get (API_URL_TEMPLATE (quote ''in;mfy''))])"
proof -
  let ?up = "\<lambda>(n::nat) (u::string). Response 200 (Some (JDict [(''data'', JDict [])]))"
  let ?f = "fetch_all ?up [\<lparr>ind_code = ''in;mfy'', ind_label = ''Nifty IT''\<rparr>]"
  let ?url = "API_URL_TEMPLATE (quote ''in;mfy'')"
  let ?df = "\<lparr>columns = [''label'', ''price'', ''change'', ''pct''],
        rows = [\<lparr>label = ''Nifty IT'', price = Finite 0, change = Finite 0, pct = Finite 0\<rparr>]\<rparr>"
  let ?e = "\<lparr>cached_value = ?df, created_at = 0, replayed = []\<rparr>"
  have run: "?f w = (?df, w @ [Get ?url])" for w
    by (simp add: fetch_all_def fetch_indicator_def fetch_loop.simps DataFrame_def
                  List.map_filter_simps attempt_def raise_for_status_def read_quote_def
                  field_float_def py_get_def py_replace_def replace_char_def py_float_zero)
  have h1: "cache_lookup 300 0 None = None" by (simp add: cache_lookup_def)
  have h2: "(0::nat) \<le> 299" and h3: "(299::nat) - 0 < 300" and h4: "(300::nat) < 301 - 0"
    by simp_all
  have c1: "cache_data 300 ?f 0 (None, []) = (?df, Some ?e, [Get ?url])"
    by (simp add: cache_data_def cache_lookup_def run is_Warning_simps)
  have c2: "cache_data 300 ?f 299 (Some ?e, [Get ?url]) = (?df, Some ?e, [Get ?url])"
    by (simp add: cache_data_def cache_lookup_def)
  have c3: "cache_data 300 ?f 301 (Some ?e, [Get ?url]) =
              (?df, Some \<lparr>cached_value = ?df, created_at = 301, replayed = []\<rparr>,
               [Get ?url, Get ?url])"
    by (simp add: cache_data_def cache_lookup_def run is_Warning_simps)
  from cache_data_ttl [where f = ?f, OF h1 h2 h3 h4 c1 c2 c3] h1 show ?thesis
    by (simp add: num_gets_def is_Get_def)
qed

section \<open>Filtering and the page\<close>








text \<open>
  The page on an empty result. When every request fails, the frame has no columns.
\<close>

lemma fetch_indicator_down:
  assumes "\<forall>n u. up n u = RequestFailed m"
  shows "fst (fetch_indicator up code lbl 3 1 w) = Inl (RequestException m)"
proof -
  from assms have "\<forall>i<nat 3. isl (attempt lbl (up (num_gets w + i) (API_URL_TEMPLATE (quote code))))"
    by (simp add: attempt_def)
  then have "fetch_loop up (API_URL_TEMPLATE (quote code)) lbl 3 1 0 w =
      (Inl (projl (attempt lbl (up (num_gets w + (nat 3 - 1)) (API_URL_TEMPLATE (quote code))))),
       w @ attempts_trace (API_URL_TEMPLATE (quote code)) 1 (nat 3 - 1))"
    by (intro fetch_loop_exhausted) simp_all
  with assms show ?thesis by (simp add: fetch_indicator_def attempt_def)
qed

lemma outcomes_down:
  assumes "\<forall>n u. up n u = RequestFailed m"
  shows "[r. Inr r \<leftarrow> outcomes up inds w] = []"
proof (induction inds arbitrary: w)
  case Nil
  show ?case by simp
next
  case (Cons i rest)
  show ?case
  proof (cases "fetch_indicator up (ind_code i) (ind_label i) 3 1 w")
    case (Pair r w')
    with fetch_indicator_down [OF assms, of "ind_code i" "ind_label i" w]
    have "r = Inl (RequestException m)" by simp
    with Pair Cons show ?thesis by simp
  qed
qed

lemma fetch_all_down:
  assumes "\<forall>n u. up n u = RequestFailed m"
  shows "fst (fetch_all up inds w) = \<lparr>columns = [], rows = []\<rparr>"
proof -
  obtain records w' where run: "fetch_all_loop up inds [] w = (records, w')"
    by (cases "fetch_all_loop up inds [] w")
  with fetch_all_loop_records [of up inds "[]" w] outcomes_down [OF assms]
  have "records = []" by simp
  with run show ?thesis by (simp add: fetch_all_def DataFrame_def List.map_filter_simps)
qed

lemma main_page_first_run:
  "fst (main_page up selection search_query now (None, w)) =
     render selection search_query (fst (fetch_all up INDICATORS w))"
  by (simp add: main_page_def fetch_all_indicators_def cache_data_def cache_lookup_def
           split: prod.splits)

lemma render_no_rows:
  assumes "filter_data selection search_query df = Some (Inr df')" and "rows df' = []"
  shows "render selection search_query df = Some (Inr No_data_warning)"
  using assms by (simp add: render_def df_empty_def)

lemma all_failed_no_filter:
  "fst (main_page (\<lambda>n u. RequestFailed ''timeout'') [] [] 0 (None, [])) =
     Some (Inr No_data_warning)"
  by (simp add: main_page_first_run fetch_all_down render_def filter_data_def df_empty_def)

text \<open>
  C9 does not hold of the code. A frame whose rows were all filtered out, and a frame
  without columns when no filter is set, give the no-data warning (the two lemmas
  above). But when every fetch has failed and a sector is selected, the filter looks
  up the \<open>label\<close> column of a frame that has no columns, and the page ends in a
  KeyError instead of the warning.
\<close>

theorem all_failed_with_selection:
  "fst (main_page (\<lambda>n u. RequestFailed ''timeout'') [''Nifty IT''] [] 0 (None, [])) =
     Some (Inl (KeyError ''label''))"
  by (simp add: main_page_first_run fetch_all_down render_def filter_data_def label_isin_def)

end
